theory Spec2Isabelle
  imports Main "HOL-Library.Multiset"
begin

section \<open>Python exceptions\<close>

text \<open>
  The notebooks are sequential Python. A raise is modelled as the left injection of a
  sum, carrying the exception's class and message; a normal return is the right one.
  \<open>Raised\<close> stands for any exception class the notebooks do not name themselves
  (service errors of the SDK, \<open>KeyboardInterrupt\<close>, ...).
\<close>

datatype exn =
    KeyError string
  | ValueError string
  | NameError string
  | JSONDecodeError string
  | UnicodeEncodeError string
  | Raised string

text \<open>A call returns when it does not raise.\<close>

definition returns :: "exn + 'a \<Rightarrow> bool" where
  "returns outcome = (case outcome of Inl e \<Rightarrow> False | Inr v \<Rightarrow> True)"

section \<open>Data loading (Localization-Fine-Tuning-With-PEFT, "2. Process Data")\<close>

text \<open>
  A row of the DeepLoc table. The cell only reads the \<open>Sequence\<close> column; the other
  columns travel with the row (the record is extensible, so the label columns are the
  \<open>more\<close> part).
\<close>

record protein =
  ACC :: string
  Kingdom :: string
  Sequence :: string

text \<open>
  A pandas DataFrame is the list of its rows in order, each with its index label.
  \<open>pd.read_csv\<close> gives the rows the default \<open>RangeIndex\<close> \<open>0, 1, ..., n - 1\<close>.
\<close>

type_synonym 'a frame = "(nat \<times> 'a) list"

definition read_csv :: "'a list \<Rightarrow> 'a frame" where
  "read_csv rows = zip [0..<length rows] rows"

text \<open>
  \<^verbatim>\<open>df = df[df["Sequence"].apply(lambda x: len(x)).between(100, 512)]\<close>
  \<open>Series.between\<close> is inclusive at both ends; boolean indexing keeps the selected
  rows with their index labels.
\<close>

definition between :: "nat \<Rightarrow> nat \<Rightarrow> nat \<Rightarrow> bool" where
  "between left right x = (left \<le> x \<and> x \<le> right)"

definition length_filter :: "'a protein_scheme frame \<Rightarrow> 'a protein_scheme frame" where
  "length_filter df = filter (\<lambda>(i, r). between 100 512 (length (Sequence r))) df"

text \<open>
  \<^verbatim>\<open>df.sample(frac=f)\<close> draws \<open>round(f * len(df))\<close> rows without replacement. The
  random draw is a parameter of the model: the list of row positions the generator
  picked, in the order it picked them. \<open>valid_draw\<close> is what pandas guarantees of it.
  Python's \<open>round\<close> goes to the nearest integer, a tie to the even one; \<open>0.8 * n\<close>
  is never a tie and \<open>0.5 * n\<close> is one for every odd \<open>n\<close>.
\<close>

definition round_frac_08 :: "nat \<Rightarrow> nat" where
  "round_frac_08 n = (8 * n + 5) div 10"

definition round_frac_05 :: "nat \<Rightarrow> nat" where
  "round_frac_05 n = (if even n then n div 2
                      else if even (n div 2) then n div 2 else n div 2 + 1)"

definition valid_draw :: "nat \<Rightarrow> nat \<Rightarrow> nat list \<Rightarrow> bool" where
  "valid_draw n k locs = (length locs = k \<and> distinct locs \<and> list_all (\<lambda>p. p < n) locs)"

definition sample :: "'a frame \<Rightarrow> nat list \<Rightarrow> 'a frame" where
  "sample df locs = map (\<lambda>p. df ! p) locs"

text \<open>
  \<^verbatim>\<open>df.drop(other.index)\<close> removes the rows whose label is listed and raises
  \<open>KeyError\<close> when a listed label is not in the frame.
\<close>

definition index :: "'a frame \<Rightarrow> nat list" where
  "index df = map fst df"

definition drop_rows :: "'a frame \<Rightarrow> nat list \<Rightarrow> exn + 'a frame" where
  "drop_rows df labels =
     (if list_all (\<lambda>l. l \<in> set (index df)) labels
      then Inr (filter (\<lambda>(i, r). i \<notin> set labels) df)
      else Inl (KeyError ''not found in axis''))"

definition reset_index :: "'a frame \<Rightarrow> 'a frame" where
  "reset_index df = zip [0..<length df] (map snd df)"

text \<open>
  The split, before the index is reset:
  \<^verbatim>\<open>
  train = df.sample(frac=0.8)
  df = df.drop(train.index)
  val = df.sample(frac=0.5)
  test = df.drop(val.index)
  \<close>
\<close>

definition split_frames ::
  "'a frame \<Rightarrow> nat list \<Rightarrow> nat list \<Rightarrow> exn + ('a frame \<times> 'a frame \<times> 'a frame)" where
  "split_frames df draw1 draw2 =
     (let train = sample df draw1 in
      case drop_rows df (index train) of
        Inl e \<Rightarrow> Inl e
      | Inr df' \<Rightarrow>
          (let val = sample df' draw2 in
           case drop_rows df' (index val) of
             Inl e \<Rightarrow> Inl e
           | Inr test \<Rightarrow> Inr (train, val, test)))"

text \<open>The draws pandas can make for a frame of the given length.\<close>

definition valid_draws :: "nat \<Rightarrow> nat list \<Rightarrow> nat list \<Rightarrow> bool" where
  "valid_draws n draw1 draw2 =
     (valid_draw n (round_frac_08 n) draw1 \<and>
      valid_draw (n - round_frac_08 n) (round_frac_05 (n - round_frac_08 n)) draw2)"

text \<open>
  The whole cell, from the rows of the CSV file to the three partitions handed to
  \<open>Dataset.from_pandas\<close>, each with its index reset.
\<close>

definition load_data ::
  "'a protein_scheme list \<Rightarrow> nat list \<Rightarrow> nat list \<Rightarrow>
   exn + ('a protein_scheme frame \<times> 'a protein_scheme frame \<times> 'a protein_scheme frame)" where
  "load_data rows draw1 draw2 =
     (case split_frames (length_filter (read_csv rows)) draw1 draw2 of
        Inl e \<Rightarrow> Inl e
      | Inr (train, val, test) \<Rightarrow> Inr (reset_index train, reset_index val, reset_index test))"

section \<open>Label vectors (Localization-Fine-Tuning-With-PEFT, \<open>labels\<close> and \<open>preprocess_data\<close>)\<close>

text \<open>
  \<^verbatim>\<open>
  labels = [label for label in dataset["train"].features.keys()
            if label not in ["ACC", "Kingdom", "Membrane", "Sequence"]]
  \<close>
  The label set is the list of the remaining column names, in the order of the columns.
\<close>

definition labels_of :: "string list \<Rightarrow> string list" where
  "labels_of features =
     filter (\<lambda>label. label \<notin> set [''ACC'', ''Kingdom'', ''Membrane'', ''Sequence'']) features"

text \<open>
  \<open>dataset.map(preprocess_data, batched=True)\<close> calls the function on a batch: a
  dictionary from each column name to the list of that column's cells, one cell per
  record. The dictionary is an association list, read with \<open>map_of\<close>; a missing key
  raises \<open>KeyError\<close>.

  Two things the function calls are not code of the notebook and are parameters here:
  \<^item> \<open>tokenizer\<close>, the HuggingFace tokenizer, called on the sequence column with
    \<open>padding="max_length", truncation=True, max_length=max_length\<close>;
  \<^item> \<open>as_float\<close>, numpy's conversion of one cell to the \<open>float64\<close> the zeros matrix
    holds, which raises for a cell that is no number.
\<close>

type_synonym 'c batch = "(string \<times> 'c list) list"

record ('e, 'v) encoded_batch =
  enc_tokens :: 'e
  enc_labels :: "'v list list"

text \<open>\<open>np.zeros((rows, cols))\<close>.\<close>

definition zeros :: "nat \<Rightarrow> nat \<Rightarrow> ('v::zero) list list" where
  "zeros rows cols = replicate rows (replicate cols 0)"

text \<open>
  \<open>labels_matrix[:, idx] = column\<close>: the cells are converted to floats, the first
  failure raising; the converted column is broadcast to the matrix's number of rows
  (a column of that many cells as it is, a column of a single cell repeated, any other
  length raising \<open>ValueError\<close>); then cell \<open>idx\<close> of every row is overwritten.
\<close>

fun convert :: "('c \<Rightarrow> exn + 'v) \<Rightarrow> 'c list \<Rightarrow> exn + 'v list" where
  "convert f [] = Inr []"
| "convert f (c # cs) =
     (case f c of
        Inl e \<Rightarrow> Inl e
      | Inr v \<Rightarrow> (case convert f cs of Inl e \<Rightarrow> Inl e | Inr vs \<Rightarrow> Inr (v # vs)))"

definition broadcast :: "nat \<Rightarrow> 'v list \<Rightarrow> exn + 'v list" where
  "broadcast n vs =
     (if length vs = n then Inr vs
      else if length vs = 1 then Inr (replicate n (hd vs))
      else Inl (ValueError ''could not broadcast input array''))"

definition set_column :: "'v list list \<Rightarrow> nat \<Rightarrow> 'v list \<Rightarrow> 'v list list" where
  "set_column m idx vs = map (\<lambda>(row, v). row[idx := v]) (zip m vs)"

text \<open>
  The loop \<^verbatim>\<open>for idx, label in enumerate(labels): labels_matrix[:, idx] = labels_batch[label]\<close>
  over the pairs that \<open>enumerate\<close> yields.
\<close>

fun fill_labels ::
  "('c \<Rightarrow> exn + 'v) \<Rightarrow> 'c batch \<Rightarrow> (nat \<times> string) list \<Rightarrow> 'v list list \<Rightarrow> exn + 'v list list" where
  "fill_labels as_float labels_batch [] m = Inr m"
| "fill_labels as_float labels_batch ((idx, label) # rest) m =
     (case map_of labels_batch label of
        None \<Rightarrow> Inl (KeyError label)
      | Some column \<Rightarrow>
          (case convert as_float column of
             Inl e \<Rightarrow> Inl e
           | Inr vs \<Rightarrow>
               (case broadcast (length m) vs of
                  Inl e \<Rightarrow> Inl e
                | Inr vs' \<Rightarrow> fill_labels as_float labels_batch rest (set_column m idx vs'))))"

definition preprocess_data ::
  "('c list \<Rightarrow> nat \<Rightarrow> exn + 'e) \<Rightarrow> ('c \<Rightarrow> exn + ('v::zero)) \<Rightarrow> string list \<Rightarrow>
   'c batch \<Rightarrow> nat \<Rightarrow> exn + ('e, 'v) encoded_batch" where
  "preprocess_data tokenizer as_float labels examples max_length =
     (case map_of examples ''Sequence'' of
        None \<Rightarrow> Inl (KeyError ''Sequence'')
      | Some text \<Rightarrow>
          (case tokenizer text max_length of
             Inl e \<Rightarrow> Inl e
           | Inr encoding \<Rightarrow>
               (let labels_batch = filter (\<lambda>(k, column). k \<in> set labels) examples;
                    labels_matrix = zeros (length text) (length labels)
                in case fill_labels as_float labels_batch (enumerate 0 labels) labels_matrix of
                     Inl e \<Rightarrow> Inl e
                   | Inr m \<Rightarrow> Inr \<lparr>enc_tokens = encoding, enc_labels = m\<rparr>)))"

text \<open>A matrix of the given shape.\<close>

definition shape :: "nat \<Rightarrow> nat \<Rightarrow> 'v list list \<Rightarrow> bool" where
  "shape n k m = (length m = n \<and> list_all (\<lambda>row. length row = k) m)"

text \<open>
  What \<open>dataset.map\<close> hands to the function, for the label columns: every name of
  the label set is a column of the batch, the column has one cell per record, and its
  cells are numbers.
\<close>

definition label_columns_ok :: "('c \<Rightarrow> exn + 'v) \<Rightarrow> 'c batch \<Rightarrow> nat \<Rightarrow> string list \<Rightarrow> bool" where
  "label_columns_ok as_float examples n labels =
     list_all (\<lambda>label. case map_of examples label of
                  None \<Rightarrow> False
                | Some column \<Rightarrow> length column = n \<and> list_all (\<lambda>c. returns (as_float c)) column)
       labels"

section \<open>The inference script (\<open>code/inference.py\<close> of the ESMFold notebook)\<close>

text \<open>
  \<open>input_fn\<close> returns either the request body as it came or what \<open>json.loads\<close>
  made of it, and prints on the way: the content type first, then the sequence it is
  about to return.
  \<^verbatim>\<open>
  print(request_content_type)
  if request_content_type == "text/csv":
      sequence = request_body
      print("Input protein sequence: ", sequence)
      return sequence
  elif request_content_type == "application/json":
      sequence = json.loads(request_body)
      print("Input protein sequence: ", sequence)
      return sequence
  else:
      raise ValueError("Unsupported content type: {}".format(request_content_type))
  \<close>
  A value the handler holds is a \<open>str\<close> (the content type, the raw body, a literal)
  or what the decoder made of the body. \<open>print\<close> writes to the process's standard
  output and raises when that fails (\<open>UnicodeEncodeError\<close> for text the stream's
  encoding cannot express); it is a parameter, given the list of its arguments.

  \<open>json.loads\<close> is Python's decoder: it skips the whitespace around the
  document, raises \<open>JSONDecodeError\<close> ("Expecting value") when nothing is left to
  scan and ("Extra data") when something follows the value. The scanner of one JSON
  value is the parameter \<open>scan_once\<close>: given the text from the value's first
  character on, it returns the value and the text after it, or raises.
\<close>

datatype 'j pyval = Str string | Decoded 'j

definition json_whitespace :: "char \<Rightarrow> bool" where
  "json_whitespace c = (c = CHR '' '' \<or> c = CHR 0x09 \<or> c = CHR 0x0A \<or> c = CHR 0x0D)"

definition json_loads :: "(string \<Rightarrow> exn + 'j \<times> string) \<Rightarrow> string \<Rightarrow> exn + 'j" where
  "json_loads scan_once s =
     (case dropWhile json_whitespace s of
        [] \<Rightarrow> Inl (JSONDecodeError ''Expecting value'')
      | c # cs \<Rightarrow>
          (case scan_once (c # cs) of
             Inl e \<Rightarrow> Inl e
           | Inr (obj, rest) \<Rightarrow>
               (if dropWhile json_whitespace rest = [] then Inr obj
                else Inl (JSONDecodeError ''Extra data''))))"

definition input_fn ::
  "('j pyval list \<Rightarrow> exn + unit) \<Rightarrow> (string \<Rightarrow> exn + 'j \<times> string) \<Rightarrow> string \<Rightarrow> string \<Rightarrow>
   exn + 'j pyval" where
  "input_fn print scan_once request_body request_content_type =
     (case print [Str request_content_type] of
        Inl e \<Rightarrow> Inl e
      | Inr u \<Rightarrow>
          (if request_content_type = ''text/csv'' then
             (case print [Str ''Input protein sequence: '', Str request_body] of
                Inl e \<Rightarrow> Inl e
              | Inr u \<Rightarrow> Inr (Str request_body))
           else if request_content_type = ''application/json'' then
             (case json_loads scan_once request_body of
                Inl e \<Rightarrow> Inl e
              | Inr sequence \<Rightarrow>
                  (case print [Str ''Input protein sequence: '', Decoded sequence] of
                     Inl e \<Rightarrow> Inl e
                   | Inr u \<Rightarrow> Inr (Decoded sequence)))
           else Inl (ValueError (''Unsupported content type: '' @ request_content_type))))"

text \<open>
  \<open>output_fn\<close> first turns the model's output into the list \<open>pdbs\<close> of PDB texts
  (\<open>atom14_to_atom37\<close>, \<open>OFProtein\<close> and \<open>to_pdb\<close> of the transformers library:
  the parameter \<open>to_pdbs\<close>, which may raise), and only then looks at the content type.
  \<open>json.dumps\<close> of a list of strings is the parameter \<open>json_dumps\<close>.
\<close>

datatype response = Pdbs "string list" | Dumped string

definition output_fn ::
  "('o \<Rightarrow> exn + string list) \<Rightarrow> (string list \<Rightarrow> string) \<Rightarrow> 'o \<Rightarrow> string \<Rightarrow> exn + response" where
  "output_fn to_pdbs json_dumps outputs response_content_type =
     (case to_pdbs outputs of
        Inl e \<Rightarrow> Inl e
      | Inr pdbs \<Rightarrow>
          (if response_content_type = ''text/csv'' then Inr (Pdbs pdbs)
           else if response_content_type = ''application/json'' then Inr (Dumped (json_dumps pdbs))
           else Inl (ValueError (''Unsupported content type: '' @ response_content_type))))"

section \<open>Endpoint cleanup (last cell of Localization-Fine-Tuning-With-PEFT)\<close>

text \<open>
  \<^verbatim>\<open>
  try:
      predictor.delete_endpoint()
  except:
      pass
  \<close>
  The cell runs in the notebook's namespace, where \<open>predictor\<close> is bound only if the
  deployment cell completed; reading an unbound name raises \<open>NameError\<close>. The call
  itself goes to the remote service: given the service's state it returns or raises,
  and leaves a new state. A bare \<open>except\<close> catches every exception.
\<close>

definition try_except :: "(exn + 'a) \<Rightarrow> (exn \<Rightarrow> exn + 'a) \<Rightarrow> exn + 'a" where
  "try_except body handler = (case body of Inl e \<Rightarrow> handler e | Inr v \<Rightarrow> Inr v)"

definition delete_endpoint_cell ::
  "'p option \<Rightarrow> ('p \<Rightarrow> 's \<Rightarrow> (exn + unit) \<times> 's) \<Rightarrow> 's \<Rightarrow> (exn + unit) \<times> 's" where
  "delete_endpoint_cell predictor delete_endpoint service =
     (case predictor of
        None \<Rightarrow> (try_except (Inl (NameError ''predictor'')) (\<lambda>e. Inr ()), service)
      | Some p \<Rightarrow>
          (let (outcome, service') = delete_endpoint p service
           in (try_except outcome (\<lambda>e. Inr ()), service')))"

section \<open>Example inputs\<close>

text \<open>
  A table of ten rows, two of them outside the length window, and the two draws of a
  run: six of the eight rows left by the filter go to training, one of the remaining two
  to validation.
\<close>

definition example_protein :: "string \<Rightarrow> nat \<Rightarrow> protein" where
  "example_protein acc n = \<lparr>ACC = acc, Kingdom = ''Metazoa'', Sequence = replicate n (CHR ''A'')\<rparr>"

definition example_rows :: "protein list" where
  "example_rows =
     [example_protein ''P0'' 100, example_protein ''P1'' 99, example_protein ''P2'' 512,
      example_protein ''P3'' 513, example_protein ''P4'' 200, example_protein ''P5'' 300,
      example_protein ''P6'' 150, example_protein ''P7'' 101, example_protein ''P8'' 400,
      example_protein ''P9'' 250]"

definition example_draw1 :: "nat list" where
  "example_draw1 = [7, 2, 0, 5, 3, 1]"

definition example_draw2 :: "nat list" where
  "example_draw2 = [1]"


text \<open>
  A batch of two records with three label columns. In the example the cells that are
  text (accession codes, kingdom names, sequences) do not read as numbers, and the
  tokenizer hands the sequence column back as it came: the label code never looks at
  the tokenizer's result.
\<close>

datatype cell = Text string | Number int

fun example_as_float :: "cell \<Rightarrow> exn + int" where
  "example_as_float (Number x) = Inr x"
| "example_as_float (Text s) = Inl (ValueError ''could not convert string to float'')"

definition example_tokenizer :: "cell list \<Rightarrow> nat \<Rightarrow> exn + cell list" where
  "example_tokenizer text max_length = Inr text"

definition example_batch :: "cell batch" where
  "example_batch =
     [(''ACC'', [Text ''P0'', Text ''P2'']),
      (''Kingdom'', [Text ''Metazoa'', Text ''Fungi'']),
      (''Membrane'', [Number 0, Number 1]),
      (''Cytoplasm'', [Number 1, Number 0]),
      (''Nucleus'', [Number 0, Number 0]),
      (''Extracellular'', [Number 1, Number 1]),
      (''Sequence'', [Text ''MKV'', Text ''MAAAV''])]"

text \<open>
  A scanner for JSON string literals made of plain characters and escapes of the
  form backslash, \<open>u\<close>, four hexadecimal digits (each escape taken on its own: no
  other escape, no surrogate pairs), which covers what the notebook's predictor sends, a
  sequence in double quotes. The value is
  the list of the string's code points. It is only used on such documents; an empty
  request body never reaches it, since the decoder finds nothing to scan.
\<close>

definition hex_digit :: "char \<Rightarrow> nat option" where
  "hex_digit c =
     (let n = (of_char c :: nat) in
      if 48 \<le> n \<and> n \<le> 57 then Some (n - 48)
      else if 97 \<le> n \<and> n \<le> 102 then Some (n - 87)
      else if 65 \<le> n \<and> n \<le> 70 then Some (n - 55)
      else None)"

definition hex4 :: "char \<Rightarrow> char \<Rightarrow> char \<Rightarrow> char \<Rightarrow> nat option" where
  "hex4 a b c d =
     (case (hex_digit a, hex_digit b, hex_digit c, hex_digit d) of
        (Some w, Some x, Some y, Some z) \<Rightarrow> Some (((w * 16 + x) * 16 + y) * 16 + z)
      | other \<Rightarrow> None)"

fun scan_string :: "string \<Rightarrow> nat list \<Rightarrow> exn + nat list \<times> string" where
  "scan_string [] acc = Inl (JSONDecodeError ''Unterminated string starting at'')"
| "scan_string (c # cs) acc =
     (if c = CHR 0x22 then Inr (rev acc, cs)
      else if c = CHR 0x5C then
        (case cs of
           u # a # b # c' # d # rest \<Rightarrow>
             (if u = CHR ''u'' then
                (case hex4 a b c' d of
                   Some cp \<Rightarrow> scan_string rest (cp # acc)
                 | None \<Rightarrow> Inl (JSONDecodeError ''Invalid uXXXX escape''))
              else Inl (JSONDecodeError ''Invalid escape''))
         | other \<Rightarrow> Inl (JSONDecodeError ''Invalid escape''))
      else if (of_char c :: nat) < 32 then Inl (JSONDecodeError ''Invalid control character at'')
      else scan_string cs (of_char c # acc))"

definition example_scan_once :: "string \<Rightarrow> exn + nat list \<times> string" where
  "example_scan_once doc =
     (case doc of
        [] \<Rightarrow> Inl (JSONDecodeError ''Expecting value'')
      | c # cs \<Rightarrow>
          (if c = CHR 0x22 then scan_string cs []
           else Inl (JSONDecodeError ''Expecting value'')))"

text \<open>
  A standard output encoded in UTF-8: a \<open>str\<close> of the model holds code points below
  256 and is always written; a decoded string is written unless one of its code points
  is a surrogate (\<open>D800\<close> to \<open>DFFF\<close>), which UTF-8 does not encode.
\<close>

fun encodable :: "nat list pyval \<Rightarrow> bool" where
  "encodable (Str s) = True"
| "encodable (Decoded cps) = list_all (\<lambda>cp. \<not> (55296 \<le> cp \<and> cp \<le> 57343)) cps"

definition example_print :: "nat list pyval list \<Rightarrow> exn + unit" where
  "example_print args =
     (if list_all encodable args then Inr ()
      else Inl (UnicodeEncodeError ''surrogates not allowed''))"

section \<open>Facts about frames\<close>

lemma index_read_csv: "index (read_csv rows) = [0..<length rows]"
  by (simp add: index_def read_csv_def)

lemma distinct_index_read_csv: "distinct (index (read_csv rows))"
  by (simp add: index_read_csv)

lemma distinct_index_filter: "distinct (index df) \<Longrightarrow> distinct (index (filter P df))"
  unfolding index_def by (rule distinct_map_filter)

lemma distinct_index_length_filter: "distinct (index (length_filter (read_csv rows)))"
  unfolding length_filter_def by (rule distinct_index_filter [OF distinct_index_read_csv])

lemma set_sample: "list_all (\<lambda>p. p < length df) locs \<Longrightarrow> set (sample df locs) \<subseteq> set df"
  by (auto simp: sample_def list_all_iff)

lemma length_sample: "length (sample df locs) = length locs"
  by (simp add: sample_def)

lemma distinct_index_sample:
  assumes "distinct (index df)" "distinct locs" "list_all (\<lambda>p. p < length df) locs"
  shows "distinct (index (sample df locs))"
proof -
  have "index (sample df locs) = map (\<lambda>p. index df ! p) locs"
    using assms(3) by (simp add: index_def sample_def list_all_iff)
  moreover have "inj_on (\<lambda>p. index df ! p) (set locs)"
  proof (rule inj_onI)
    fix x y assume "x \<in> set locs" "y \<in> set locs" and e: "index df ! x = index df ! y"
    then have "x < length (index df)" "y < length (index df)"
      using assms(3) by (auto simp: list_all_iff index_def)
    with assms(1) e show "x = y" by (simp add: nth_eq_iff_index_eq)
  qed
  ultimately show ?thesis using assms(2) by (simp add: distinct_map)
qed

lemma distinct_frame: "distinct (index df) \<Longrightarrow> distinct df"
  unfolding index_def by (rule distinct_map [THEN iffD1, THEN conjunct1])

lemma drop_rows_sub:
  "set sub \<subseteq> set df \<Longrightarrow>
   drop_rows df (index sub) = Inr (filter (\<lambda>(i, r). i \<notin> set (index sub)) df)"
  by (auto simp: drop_rows_def list_all_iff index_def)

lemma label_unique:
  "distinct (index df) \<Longrightarrow> (i, r) \<in> set df \<Longrightarrow> (i, r') \<in> set df \<Longrightarrow> r = r'"
  unfolding index_def by (rule eq_key_imp_eq_value)

lemma mset_split_by_index:
  assumes d: "distinct (index df)" and ds: "distinct (index sub)" and sub: "set sub \<subseteq> set df"
  shows "mset sub + mset (filter (\<lambda>(i, r). i \<notin> set (index sub)) df) = mset df"
proof -
  let ?P = "\<lambda>(i, r). i \<in> set (index sub)"
  have "set (filter ?P df) = set sub"
  proof (rule set_eqI)
    fix x :: "nat \<times> 'a"
    obtain i r where x: "x = (i, r)" by (cases x)
    show "x \<in> set (filter ?P df) \<longleftrightarrow> x \<in> set sub"
    proof
      assume "x \<in> set (filter ?P df)"
      then have m: "(i, r) \<in> set df" and "i \<in> set (index sub)" using x by auto
      then obtain r' where r': "(i, r') \<in> set sub" by (auto simp: index_def)
      with sub have "(i, r') \<in> set df" by auto
      from label_unique[OF d m this] have "r = r'" .
      with r' x show "x \<in> set sub" by simp
    next
      assume a: "x \<in> set sub"
      then have "i \<in> set (index sub)" using x by (force simp: index_def)
      with a sub x show "x \<in> set (filter ?P df)" by auto
    qed
  qed
  moreover have "distinct (filter ?P df)" using distinct_frame[OF d] by simp
  moreover have "distinct sub" using distinct_frame[OF ds] .
  ultimately have "mset (filter ?P df) = mset sub"
    by (rule set_eq_iff_mset_eq_distinct [THEN iffD1, rotated 2])
  then have a: "mset (filter ?P df) = mset sub" .
  have b: "filter (\<lambda>(i, r). i \<notin> set (index sub)) df = filter (\<lambda>x. \<not> ?P x) df"
    by (rule filter_cong) auto
  have "mset (filter ?P df) + mset (filter (\<lambda>x. \<not> ?P x) df) = mset df"
    by simp
  then show ?thesis unfolding a b .
qed

lemma split_frames_facts:
  assumes d: "distinct (index df)" and v: "valid_draws (length df) draw1 draw2"
  shows "\<exists>train val test.
           split_frames df draw1 draw2 = Inr (train, val, test) \<and>
           mset train + mset val + mset test = mset df \<and>
           length train = round_frac_08 (length df) \<and>
           length val = round_frac_05 (length df - round_frac_08 (length df))"
proof -
  let ?n = "length df"
  let ?train = "sample df draw1"
  let ?df' = "filter (\<lambda>(i, r). i \<notin> set (index ?train)) df"
  let ?val = "sample ?df' draw2"
  let ?test = "filter (\<lambda>(i, r). i \<notin> set (index ?val)) ?df'"
  from v have v1: "valid_draw ?n (round_frac_08 ?n) draw1"
    and v2: "valid_draw (?n - round_frac_08 ?n) (round_frac_05 (?n - round_frac_08 ?n)) draw2"
    by (simp_all add: valid_draws_def)
  have sub1: "set ?train \<subseteq> set df"
    using v1 by (intro set_sample) (simp add: valid_draw_def)
  have len1: "length ?train = round_frac_08 ?n"
    using v1 by (simp add: length_sample valid_draw_def)
  have d1: "distinct (index ?train)"
    using d v1 by (intro distinct_index_sample) (simp_all add: valid_draw_def)
  have m1: "mset ?train + mset ?df' = mset df"
    by (rule mset_split_by_index [OF d d1 sub1])
  have drop1: "drop_rows df (index ?train) = Inr ?df'"
    by (rule drop_rows_sub [OF sub1])
  have "size (mset ?train) + size (mset ?df') = size (mset df)"
    using m1 by (metis size_union)
  then have "length ?train + length ?df' = ?n"
    unfolding size_mset .
  then have len': "length ?df' = ?n - round_frac_08 ?n"
    unfolding len1 by arith
  have d': "distinct (index ?df')"
    by (rule distinct_index_filter [OF d])
  have v2': "valid_draw (length ?df') (round_frac_05 (?n - round_frac_08 ?n)) draw2"
    using v2 len' by simp
  have sub2: "set ?val \<subseteq> set ?df'"
    using v2' by (intro set_sample) (simp add: valid_draw_def)
  have len2: "length ?val = round_frac_05 (?n - round_frac_08 ?n)"
    using v2' by (simp add: length_sample valid_draw_def)
  have d2: "distinct (index ?val)"
    using d' v2' by (intro distinct_index_sample) (simp_all add: valid_draw_def)
  have m2: "mset ?val + mset ?test = mset ?df'"
    by (rule mset_split_by_index [OF d' d2 sub2])
  have drop2: "drop_rows ?df' (index ?val) = Inr ?test"
    by (rule drop_rows_sub [OF sub2])
  have split: "split_frames df draw1 draw2 = Inr (?train, ?val, ?test)"
    by (simp add: split_frames_def Let_def drop1 drop2)
  have "mset ?train + mset ?val + mset ?test = mset df"
    using m1 m2 by (simp add: add.assoc)
  with split len1 len2 show ?thesis by blast
qed

lemma partition_of_mset:
  assumes d: "distinct (index df)" and m: "mset a + mset b + mset c = mset df"
  shows "set (index a) \<inter> set (index b) = {}" "set (index a) \<inter> set (index c) = {}"
        "set (index b) \<inter> set (index c) = {}" "set a \<union> set b \<union> set c = set df"
        "length a + length b + length c = length df"
proof -
  have "mset (index (a @ b @ c)) = mset (index df)"
    unfolding index_def mset_map using m by (simp add: add.assoc)
  then have "distinct (index (a @ b @ c))"
    using d by (metis mset_eq_imp_distinct_iff)
  then show "set (index a) \<inter> set (index b) = {}" "set (index a) \<inter> set (index c) = {}"
        "set (index b) \<inter> set (index c) = {}"
    by (auto simp: index_def)
  have "set_mset (mset a + mset b + mset c) = set_mset (mset df)" using m by simp
  then show "set a \<union> set b \<union> set c = set df" by simp
  have "size (mset a + mset b + mset c) = size (mset df)" using m by simp
  then show "length a + length b + length c = length df"
    unfolding size_union size_mset .
qed

lemma snd_reset_index: "map snd (reset_index df) = map snd df"
  by (simp add: reset_index_def)

lemma set_length_filter:
  "x \<in> set (length_filter df) \<Longrightarrow> between 100 512 (length (Sequence (snd x)))"
  by (auto simp: length_filter_def)

lemma example_filtered:
  "length_filter (read_csv example_rows) =
     [(0, example_protein ''P0'' 100), (2, example_protein ''P2'' 512),
      (4, example_protein ''P4'' 200), (5, example_protein ''P5'' 300),
      (6, example_protein ''P6'' 150), (7, example_protein ''P7'' 101),
      (8, example_protein ''P8'' 400), (9, example_protein ''P9'' 250)]"
  by (simp add: length_filter_def read_csv_def example_rows_def example_protein_def between_def upt_rec)

lemma example_valid_draws:
  "valid_draws (length (length_filter (read_csv example_rows))) example_draw1 example_draw2"
  by (simp add: example_filtered valid_draws_def valid_draw_def round_frac_08_def
      round_frac_05_def example_draw1_def example_draw2_def)

section \<open>The length window\<close>

text \<open>
  Claim C4. After data loading, every record of the train, validation and test partitions
  has a sequence of at least 100 and at most 512 symbols, and no record of the table whose
  sequence is outside that window is in any partition. The draws are any the sampler
  can make.
\<close>

theorem partitions_within_window:
  assumes "valid_draws (length (length_filter (read_csv rows))) draw1 draw2"
  shows "\<exists>train val test.
           load_data rows draw1 draw2 = Inr (train, val, test) \<and>
           (\<forall>r \<in> set (map snd train) \<union> set (map snd val) \<union> set (map snd test).
              100 \<le> length (Sequence r) \<and> length (Sequence r) \<le> 512) \<and>
           (\<forall>r \<in> set rows. \<not> (100 \<le> length (Sequence r) \<and> length (Sequence r) \<le> 512) \<longrightarrow>
              r \<notin> set (map snd train) \<union> set (map snd val) \<union> set (map snd test))"
proof -
  let ?df = "length_filter (read_csv rows)"
  from split_frames_facts [OF distinct_index_length_filter assms]
  obtain train val test where
    s: "split_frames ?df draw1 draw2 = Inr (train, val, test)" and
    m: "mset train + mset val + mset test = mset ?df"
    by blast
  have u: "set train \<union> set val \<union> set test = set ?df"
    by (rule partition_of_mset(4) [OF distinct_index_length_filter m])
  have l: "load_data rows draw1 draw2 = Inr (reset_index train, reset_index val, reset_index test)"
    by (simp add: load_data_def s)
  have w: "100 \<le> length (Sequence r) \<and> length (Sequence r) \<le> 512"
    if "r \<in> set (map snd (reset_index train)) \<union> set (map snd (reset_index val)) \<union>
            set (map snd (reset_index test))" for r
  proof -
    from that have "r \<in> snd ` (set train \<union> set val \<union> set test)"
      unfolding snd_reset_index by auto
    then obtain x where "x \<in> set ?df" "r = snd x" unfolding u by blast
    then show ?thesis using set_length_filter [of x "read_csv rows"] by (simp add: between_def)
  qed
  from l w show ?thesis by blast
qed

theorem partitions_within_window_witness:
  "valid_draws (length (length_filter (read_csv example_rows))) example_draw1 example_draw2 \<and>
   (\<exists>train val test.
      load_data example_rows example_draw1 example_draw2 = Inr (train, val, test) \<and>
      (\<forall>r \<in> set (map snd train) \<union> set (map snd val) \<union> set (map snd test).
         100 \<le> length (Sequence r) \<and> length (Sequence r) \<le> 512) \<and>
      (\<forall>r \<in> set example_rows. \<not> (100 \<le> length (Sequence r) \<and> length (Sequence r) \<le> 512) \<longrightarrow>
         r \<notin> set (map snd train) \<union> set (map snd val) \<union> set (map snd test)))"
  using partitions_within_window [OF example_valid_draws] example_valid_draws by (rule conjI[rotated])

lemma example_load:
  "load_data example_rows example_draw1 example_draw2 =
     Inr ([(0, example_protein ''P9'' 250), (1, example_protein ''P4'' 200),
           (2, example_protein ''P0'' 100), (3, example_protein ''P7'' 101),
           (4, example_protein ''P5'' 300), (5, example_protein ''P2'' 512)],
          [(0, example_protein ''P8'' 400)],
          [(0, example_protein ''P6'' 150)])"
  by (simp add: load_data_def split_frames_def example_filtered sample_def drop_rows_def index_def
      reset_index_def example_draw1_def example_draw2_def Let_def upt_rec)

section \<open>The split is a partition\<close>

text \<open>
  Claim C9. The train, validation and test frames partition the length-filtered frame:
  their index labels are pairwise disjoint, their rows together are exactly the rows of
  the filtered frame (as sets of labelled rows, and as multisets of row contents once the
  index is reset), training holds \<open>round(0.8 * n)\<close> rows, validation
  \<open>round(0.5 * rest)\<close> of the rest, and test what remains.
\<close>

theorem train_val_test_partition:
  assumes "valid_draws (length (length_filter (read_csv rows))) draw1 draw2"
  shows "\<exists>train val test.
           split_frames (length_filter (read_csv rows)) draw1 draw2 = Inr (train, val, test) \<and>
           load_data rows draw1 draw2 = Inr (reset_index train, reset_index val, reset_index test) \<and>
           set (index train) \<inter> set (index val) = {} \<and>
           set (index train) \<inter> set (index test) = {} \<and>
           set (index val) \<inter> set (index test) = {} \<and>
           set train \<union> set val \<union> set test = set (length_filter (read_csv rows)) \<and>
           mset (map snd (reset_index train)) + mset (map snd (reset_index val)) +
             mset (map snd (reset_index test)) = mset (map snd (length_filter (read_csv rows))) \<and>
           length train = round_frac_08 (length (length_filter (read_csv rows))) \<and>
           length val = round_frac_05 (length (length_filter (read_csv rows)) - length train) \<and>
           length test = length (length_filter (read_csv rows)) - length train - length val"
proof -
  let ?df = "length_filter (read_csv rows)"
  note d = distinct_index_length_filter [of rows]
  from split_frames_facts [OF d assms]
  obtain train val test where
    s: "split_frames ?df draw1 draw2 = Inr (train, val, test)" and
    m: "mset train + mset val + mset test = mset ?df" and
    l1: "length train = round_frac_08 (length ?df)" and
    l2: "length val = round_frac_05 (length ?df - round_frac_08 (length ?df))"
    by blast
  note p = partition_of_mset [OF d m]
  have l: "load_data rows draw1 draw2 = Inr (reset_index train, reset_index val, reset_index test)"
    by (simp add: load_data_def s)
  have "image_mset snd (mset train + mset val + mset test) = image_mset snd (mset ?df)"
    using m by simp
  then have c: "mset (map snd (reset_index train)) + mset (map snd (reset_index val)) +
             mset (map snd (reset_index test)) = mset (map snd ?df)"
    unfolding snd_reset_index by simp
  have l3: "length test = length ?df - length train - length val"
    using p(5) by arith
  have l2': "length val = round_frac_05 (length ?df - length train)"
    using l1 l2 by simp
  from s l p(1) p(2) p(3) p(4) c l1 l2' l3 show ?thesis by blast
qed

theorem train_val_test_partition_witness:
  "valid_draws (length (length_filter (read_csv example_rows))) example_draw1 example_draw2 \<and>
   (\<exists>train val test.
      split_frames (length_filter (read_csv example_rows)) example_draw1 example_draw2 =
        Inr (train, val, test) \<and>
      load_data example_rows example_draw1 example_draw2 =
        Inr (reset_index train, reset_index val, reset_index test) \<and>
      set (index train) \<inter> set (index val) = {} \<and>
      set (index train) \<inter> set (index test) = {} \<and>
      set (index val) \<inter> set (index test) = {} \<and>
      set train \<union> set val \<union> set test = set (length_filter (read_csv example_rows)) \<and>
      mset (map snd (reset_index train)) + mset (map snd (reset_index val)) +
        mset (map snd (reset_index test)) = mset (map snd (length_filter (read_csv example_rows))) \<and>
      length train = round_frac_08 (length (length_filter (read_csv example_rows))) \<and>
      length val = round_frac_05 (length (length_filter (read_csv example_rows)) - length train) \<and>
      length test = length (length_filter (read_csv example_rows)) - length train - length val)"
  using train_val_test_partition [OF example_valid_draws] example_valid_draws by (rule conjI[rotated])

section \<open>Facts about the label matrix\<close>

lemma returns_iff: "returns outcome = (\<exists>v. outcome = Inr v)"
  by (cases outcome) (simp_all add: returns_def)

lemma convert_Inr:
  "convert f cs = Inr vs \<Longrightarrow> length vs = length cs \<and> (\<forall>r < length cs. f (cs ! r) = Inr (vs ! r))"
proof (induction cs arbitrary: vs)
  case Nil
  then show ?case by simp
next
  case (Cons c cs)
  then obtain v vs' where v: "f c = Inr v" and c: "convert f cs = Inr vs'" and e: "vs = v # vs'"
    by (auto split: sum.splits)
  from Cons.IH [OF c] v e show ?case by (auto simp: nth_Cons')
qed

lemma convert_total:
  "list_all (\<lambda>c. returns (f c)) cs \<Longrightarrow> \<exists>vs. convert f cs = Inr vs"
proof (induction cs)
  case Nil
  then show ?case by simp
next
  case (Cons c cs)
  then obtain v vs where "f c = Inr v" "convert f cs = Inr vs"
    by (auto simp: returns_iff)
  then show ?case by simp
qed

lemma length_set_column:
  "length vs = length m \<Longrightarrow> length (set_column m idx vs) = length m"
  by (simp add: set_column_def)

lemma nth_set_column:
  "length vs = length m \<Longrightarrow> r < length m \<Longrightarrow> set_column m idx vs ! r = (m ! r)[idx := vs ! r]"
  by (simp add: set_column_def)

lemma shape_zeros: "shape n k (zeros n k)"
  by (simp add: shape_def zeros_def list_all_iff)

lemma shape_set_column:
  "shape n k m \<Longrightarrow> length vs = n \<Longrightarrow> shape n k (set_column m idx vs)"
  by (auto simp: shape_def set_column_def list_all_iff in_set_zip)

lemma shape_nth: "shape n k m \<Longrightarrow> r < n \<Longrightarrow> length (m ! r) = k"
  by (auto simp: shape_def list_all_length)


lemma broadcast_same: "length vs = n \<Longrightarrow> broadcast n vs = Inr vs"
  by (simp add: broadcast_def)

lemma fill_labels_result:
  assumes "shape n k m"
    and "distinct (map fst ps)"
    and "\<forall>p \<in> set ps. fst p < k \<and> (\<exists>column. map_of lb (snd p) = Some column \<and> length column = n \<and>
           list_all (\<lambda>c. returns (as_float c)) column)"
  shows "\<exists>m'. fill_labels as_float lb ps m = Inr m' \<and> shape n k m' \<and>
           (\<forall>r<n. \<forall>p \<in> set ps. \<exists>column. map_of lb (snd p) = Some column \<and>
              as_float (column ! r) = Inr (m' ! r ! fst p)) \<and>
           (\<forall>r<n. \<forall>j. j \<notin> fst ` set ps \<longrightarrow> m' ! r ! j = m ! r ! j)"
  using assms
proof (induction ps arbitrary: m)
  case Nil
  then show ?case by simp
next
  case (Cons p rest)
  obtain idx label where p: "p = (idx, label)" by (cases p)
  from Cons.prems(3) p obtain column where
    idx: "idx < k" and col: "map_of lb label = Some column" and len: "length column = n" and
    fl: "list_all (\<lambda>c. returns (as_float c)) column"
    by auto
  from convert_total [OF fl] obtain vs where cv: "convert as_float column = Inr vs" by blast
  from convert_Inr [OF cv] len have lvs: "length vs = n"
    and vals: "\<And>r. r < n \<Longrightarrow> as_float (column ! r) = Inr (vs ! r)" by auto
  have lm: "length m = n" using Cons.prems(1) by (simp add: shape_def)
  let ?m1 = "set_column m idx vs"
  have step: "fill_labels as_float lb (p # rest) m = fill_labels as_float lb rest ?m1"
    by (simp add: p col cv broadcast_same lvs lm)
  have sh1: "shape n k ?m1" by (rule shape_set_column [OF Cons.prems(1) lvs])
  have d: "distinct (map fst rest)" and notin: "idx \<notin> fst ` set rest"
    using Cons.prems(2) p by auto
  have pre: "\<forall>p \<in> set rest. fst p < k \<and> (\<exists>column. map_of lb (snd p) = Some column \<and>
      length column = n \<and> list_all (\<lambda>c. returns (as_float c)) column)"
    using Cons.prems(3) by simp
  from Cons.IH [OF sh1 d pre] obtain m' where
    r: "fill_labels as_float lb rest ?m1 = Inr m'" and sh': "shape n k m'" and
    vals': "\<forall>r<n. \<forall>p \<in> set rest. \<exists>column. map_of lb (snd p) = Some column \<and>
              as_float (column ! r) = Inr (m' ! r ! fst p)" and
    frame: "\<forall>r<n. \<forall>j. j \<notin> fst ` set rest \<longrightarrow> m' ! r ! j = ?m1 ! r ! j"
    by blast
  have row1: "?m1 ! r = (m ! r)[idx := vs ! r]" if "r < n" for r
    using that lvs lm by (simp add: nth_set_column)
  have here: "as_float (column ! r) = Inr (m' ! r ! idx)" if "r < n" for r
  proof -
    have "m' ! r ! idx = ?m1 ! r ! idx" using frame notin that by blast
    also have "\<dots> = vs ! r"
      using row1 [OF that] idx shape_nth [OF Cons.prems(1) that] by simp
    finally show ?thesis using vals [OF that] by simp
  qed
  have frame': "m' ! r ! j = m ! r ! j" if "r < n" "j \<notin> fst ` set (p # rest)" for r j
  proof -
    from that(2) p have "j \<noteq> idx" "j \<notin> fst ` set rest" by auto
    then have "m' ! r ! j = ?m1 ! r ! j" using frame that(1) by blast
    also have "\<dots> = m ! r ! j" using row1 [OF that(1)] \<open>j \<noteq> idx\<close> by simp
    finally show ?thesis .
  qed
  have all: "\<forall>r<n. \<forall>q \<in> set (p # rest). \<exists>column. map_of lb (snd q) = Some column \<and>
              as_float (column ! r) = Inr (m' ! r ! fst q)"
    using here vals' col p by auto
  from step r sh' all frame' show ?case by auto
qed

lemma map_of_labels_batch:
  "label \<in> set labels \<Longrightarrow>
   map_of (filter (\<lambda>(k, column). k \<in> set labels) examples) label = map_of examples label"
  by (induction examples) auto

lemma example_labels: "labels_of (map fst example_batch) = [''Cytoplasm'', ''Nucleus'', ''Extracellular'']"
  by (simp add: example_batch_def labels_of_def)

lemma example_batch_ok:
  "map_of example_batch ''Sequence'' = Some [Text ''MKV'', Text ''MAAAV''] \<and>
   example_tokenizer [Text ''MKV'', Text ''MAAAV''] 512 = Inr [Text ''MKV'', Text ''MAAAV''] \<and>
   label_columns_ok example_as_float example_batch (length [Text ''MKV'', Text ''MAAAV''])
     (labels_of (map fst example_batch))"
  unfolding example_labels
  by (simp add: example_batch_def example_tokenizer_def label_columns_ok_def returns_def)


section \<open>Label vectors\<close>

text \<open>
  Claim C2. For a batch of \<open>n\<close> records and the ordered label set of size
  \<open>K\<close>, \<open>preprocess_data\<close> returns, next to the tokenizer's encoding, one label
  vector per record; each has length exactly \<open>K\<close>, and its entry \<open>i\<close> is the
  record's value in the column named by the \<open>i\<close>-th label.
\<close>

theorem preprocess_data_label_vectors:
  assumes seq: "map_of examples ''Sequence'' = Some text"
    and tok: "tokenizer text max_length = Inr encoding"
    and cols: "label_columns_ok as_float examples (length text) labels"
  shows "\<exists>out. preprocess_data tokenizer as_float labels examples max_length = Inr out \<and>
           enc_tokens out = encoding \<and>
           length (enc_labels out) = length text \<and>
           (\<forall>r<length text. length (enc_labels out ! r) = length labels \<and>
              (\<forall>i<length labels. \<exists>column. map_of examples (labels ! i) = Some column \<and>
                 as_float (column ! r) = Inr (enc_labels out ! r ! i)))"
proof -
  let ?n = "length text" and ?k = "length labels"
  let ?lb = "filter (\<lambda>(k, column). k \<in> set labels) examples"
  let ?ps = "enumerate 0 labels"
  have ps: "fst p < ?k \<and> snd p = labels ! fst p" if "p \<in> set ?ps" for p
    using that by (auto simp: in_set_enumerate_eq)
  have pre: "\<forall>p \<in> set ?ps. fst p < ?k \<and> (\<exists>column. map_of ?lb (snd p) = Some column \<and>
      length column = ?n \<and> list_all (\<lambda>c. returns (as_float c)) column)"
  proof
    fix p assume p: "p \<in> set ?ps"
    then have i: "fst p < ?k" and l: "snd p = labels ! fst p" using ps by auto
    then have mem: "snd p \<in> set labels" by simp
    with cols obtain column where "map_of examples (snd p) = Some column"
      "length column = ?n" "list_all (\<lambda>c. returns (as_float c)) column"
      by (auto simp: label_columns_ok_def list_all_iff split: option.splits)
    then show "fst p < ?k \<and> (\<exists>column. map_of ?lb (snd p) = Some column \<and>
      length column = ?n \<and> list_all (\<lambda>c. returns (as_float c)) column)"
      using i map_of_labels_batch [OF mem, of examples] by simp
  qed
  have d: "distinct (map fst ?ps)" by simp
  from fill_labels_result [OF shape_zeros d pre] obtain m where
    f: "fill_labels as_float ?lb ?ps (zeros ?n ?k) = Inr m" and sh: "shape ?n ?k m" and
    vals: "\<forall>r<?n. \<forall>p \<in> set ?ps. \<exists>column. map_of ?lb (snd p) = Some column \<and>
              as_float (column ! r) = Inr (m ! r ! fst p)"
    by blast
  have out: "preprocess_data tokenizer as_float labels examples max_length =
      Inr \<lparr>enc_tokens = encoding, enc_labels = m\<rparr>"
    by (simp add: preprocess_data_def seq tok Let_def f)
  have entry: "\<exists>column. map_of examples (labels ! i) = Some column \<and>
      as_float (column ! r) = Inr (m ! r ! i)" if "r < ?n" "i < ?k" for r i
  proof -
    have "(i, labels ! i) \<in> set ?ps" using that(2) by (simp add: in_set_enumerate_eq)
    with vals that(1) obtain column where "map_of ?lb (labels ! i) = Some column"
      "as_float (column ! r) = Inr (m ! r ! i)" by fastforce
    moreover have "labels ! i \<in> set labels" using that(2) by simp
    ultimately show ?thesis using map_of_labels_batch [of "labels ! i" labels examples] by simp
  qed
  have "length m = ?n" using sh by (simp add: shape_def)
  moreover have "\<forall>r<?n. length (m ! r) = ?k" using shape_nth [OF sh] by simp
  ultimately show ?thesis using out entry by simp
qed

theorem preprocess_data_label_vectors_witness:
  "(map_of example_batch ''Sequence'' = Some [Text ''MKV'', Text ''MAAAV''] \<and>
    example_tokenizer [Text ''MKV'', Text ''MAAAV''] 512 = Inr [Text ''MKV'', Text ''MAAAV''] \<and>
    label_columns_ok example_as_float example_batch (length [Text ''MKV'', Text ''MAAAV''])
      (labels_of (map fst example_batch))) \<and>
   (\<exists>out. preprocess_data example_tokenizer example_as_float (labels_of (map fst example_batch))
            example_batch 512 = Inr out \<and>
      enc_tokens out = [Text ''MKV'', Text ''MAAAV''] \<and>
      length (enc_labels out) = length [Text ''MKV'', Text ''MAAAV''] \<and>
      (\<forall>r<length [Text ''MKV'', Text ''MAAAV''].
         length (enc_labels out ! r) = length (labels_of (map fst example_batch)) \<and>
         (\<forall>i<length (labels_of (map fst example_batch)).
            \<exists>column. map_of example_batch (labels_of (map fst example_batch) ! i) = Some column \<and>
              example_as_float (column ! r) = Inr (enc_labels out ! r ! i))))"
proof -
  note h = example_batch_ok
  from h have h1: "map_of example_batch ''Sequence'' = Some [Text ''MKV'', Text ''MAAAV'']"
    and h2: "example_tokenizer [Text ''MKV'', Text ''MAAAV''] 512 = Inr [Text ''MKV'', Text ''MAAAV'']"
    and h3: "label_columns_ok example_as_float example_batch (length [Text ''MKV'', Text ''MAAAV''])
      (labels_of (map fst example_batch))"
    by blast+
  from preprocess_data_label_vectors
      [where tokenizer = example_tokenizer and as_float = example_as_float
         and examples = example_batch and max_length = 512
         and labels = "labels_of (map fst example_batch)", OF h1 h2 h3] h
  show ?thesis by (rule conjI[rotated])
qed

lemma example_preprocess:
  "preprocess_data example_tokenizer example_as_float (labels_of (map fst example_batch))
     example_batch 512 =
   Inr \<lparr>enc_tokens = [Text ''MKV'', Text ''MAAAV''], enc_labels = [[1, 0, 1], [0, 0, 1]]\<rparr>"
  by code_simp

section \<open>The inference handlers\<close>

lemma json_loads_blank:
  "list_all json_whitespace request_body \<Longrightarrow>
   json_loads scan_once request_body = Inl (JSONDecodeError ''Expecting value'')"
proof -
  assume "list_all json_whitespace request_body"
  then have blank: "dropWhile json_whitespace request_body = []"
    by (simp add: list_all_iff)
  show ?thesis unfolding json_loads_def blank by simp
qed

lemma json_loads_example:
  "json_loads example_scan_once [CHR 0x22, CHR ''M'', CHR ''K'', CHR ''V'', CHR 0x22] =
     Inr [77, 75, 86]"
  by (simp add: json_loads_def example_scan_once_def json_whitespace_def)

lemma json_loads_surrogate:
  "json_loads example_scan_once
     [CHR 0x22, CHR 0x5C, CHR ''u'', CHR ''d'', CHR ''8'', CHR ''0'', CHR ''0'', CHR 0x22] =
     Inr [55296]"
  by (simp add: json_loads_def example_scan_once_def json_whitespace_def hex4_def hex_digit_def)

text \<open>
  Claim C10, as the code has it. Whenever \<open>input_fn\<close> returns, the result is the
  request body unchanged for the content type \<open>text/csv\<close>, and the value
  \<open>json.loads\<close> made of the body for \<open>application/json\<close>. It returns for
  \<open>text/csv\<close> exactly when its two \<open>print\<close> calls succeed, and for
  \<open>application/json\<close> exactly when \<open>json.loads\<close> accepts the body and the two
  \<open>print\<close> calls succeed.
\<close>

theorem input_fn_body_or_decoded:
  "(input_fn print scan_once request_body ''text/csv'' = Inr r1) =
     (returns (print [Str ''text/csv'']) \<and>
      returns (print [Str ''Input protein sequence: '', Str request_body]) \<and>
      r1 = Str request_body) \<and>
   (input_fn print scan_once request_body ''application/json'' = Inr r2) =
     (returns (print [Str ''application/json'']) \<and>
      (\<exists>sequence. json_loads scan_once request_body = Inr sequence \<and>
         returns (print [Str ''Input protein sequence: '', Decoded sequence]) \<and>
         r2 = Decoded sequence))"
  by (auto simp: input_fn_def returns_def split: sum.splits)

theorem input_fn_body_or_decoded_witness:
  "input_fn example_print example_scan_once
     [CHR 0x22, CHR ''M'', CHR ''K'', CHR ''V'', CHR 0x22] ''text/csv'' =
     Inr (Str [CHR 0x22, CHR ''M'', CHR ''K'', CHR ''V'', CHR 0x22]) \<and>
   input_fn example_print example_scan_once
     [CHR 0x22, CHR ''M'', CHR ''K'', CHR ''V'', CHR 0x22] ''application/json'' =
     Inr (Decoded [77, 75, 86])"
  using input_fn_body_or_decoded
    [of example_print example_scan_once "[CHR 0x22, CHR ''M'', CHR ''K'', CHR ''V'', CHR 0x22]"
        "Str [CHR 0x22, CHR ''M'', CHR ''K'', CHR ''V'', CHR 0x22]" "Decoded [77, 75, 86]"]
  by (simp add: json_loads_example example_print_def returns_def)

text \<open>
  The claim as the specification states it fails: the body of eight characters, a
  double quote, a backslash, \<open>ud800\<close> and a double quote, is JSON;
  \<open>json.loads\<close> decodes it to a string of one surrogate code point, and printing
  that string raises, so \<open>input_fn\<close> raises instead of returning the decoded value.
\<close>

theorem input_fn_json_surrogate_print_raises:
  "input_fn example_print example_scan_once
     [CHR 0x22, CHR 0x5C, CHR ''u'', CHR ''d'', CHR ''8'', CHR ''0'', CHR ''0'', CHR 0x22]
     ''application/json'' = Inl (UnicodeEncodeError ''surrogates not allowed'')"
  by (simp add: input_fn_def json_loads_surrogate example_print_def)

text \<open>
  Claim C6, as the code has it. With a content type that is neither \<open>text/csv\<close> nor
  \<open>application/json\<close> both handlers raise. \<open>input_fn\<close> raises exactly when its
  first \<open>print\<close> raises, or that succeeds and: the content type is \<open>text/csv\<close>
  and the second \<open>print\<close> raises; or it is \<open>application/json\<close> and
  \<open>json.loads\<close> raises on the body or the \<open>print\<close> of the decoded value
  raises; or it is neither (the \<open>ValueError\<close> "Unsupported content type"). Each
  error reaches the caller unchanged. \<open>output_fn\<close> raises exactly when turning the
  model's output into PDB texts raises (that error), or when that succeeds and the content
  type is neither of the two (the \<open>ValueError\<close>).
\<close>

theorem content_type_dispatch_errors:
  "(input_fn print scan_once request_body content_type = Inl e) =
     (print [Str content_type] = Inl e \<or>
      returns (print [Str content_type]) \<and>
        (content_type = ''text/csv'' \<and>
           print [Str ''Input protein sequence: '', Str request_body] = Inl e \<or>
         content_type = ''application/json'' \<and>
           (json_loads scan_once request_body = Inl e \<or>
            (\<exists>sequence. json_loads scan_once request_body = Inr sequence \<and>
               print [Str ''Input protein sequence: '', Decoded sequence] = Inl e)) \<or>
         content_type \<noteq> ''text/csv'' \<and> content_type \<noteq> ''application/json'' \<and>
           e = ValueError (''Unsupported content type: '' @ content_type))) \<and>
   (output_fn to_pdbs json_dumps outputs content_type = Inl e) =
     (to_pdbs outputs = Inl e \<or>
      returns (to_pdbs outputs) \<and>
        content_type \<noteq> ''text/csv'' \<and> content_type \<noteq> ''application/json'' \<and>
        e = ValueError (''Unsupported content type: '' @ content_type)) \<and>
   (content_type \<noteq> ''text/csv'' \<and> content_type \<noteq> ''application/json'' \<longrightarrow>
      \<not> returns (input_fn print scan_once request_body content_type) \<and>
      \<not> returns (output_fn to_pdbs json_dumps outputs content_type))"
  by (auto simp: input_fn_def output_fn_def returns_def split: sum.splits)

theorem content_type_dispatch_errors_witness:
  "input_fn example_print example_scan_once ''MKV'' ''text/plain'' =
     Inl (ValueError ''Unsupported content type: text/plain'') \<and>
   output_fn (\<lambda>outputs. Inr outputs) concat [''ATOM''] ''text/plain'' =
     Inl (ValueError ''Unsupported content type: text/plain'') \<and>
   (''text/plain'' \<noteq> ''text/csv'' \<and> ''text/plain'' \<noteq> ''application/json'') \<and>
   \<not> returns (input_fn example_print example_scan_once ''MKV'' ''text/plain'') \<and>
   \<not> returns (output_fn (\<lambda>outputs. Inr outputs) concat [''ATOM''] ''text/plain'')"
  using content_type_dispatch_errors
    [of example_print example_scan_once "''MKV''" "''text/plain''"
        "ValueError ''Unsupported content type: text/plain''"
        "\<lambda>outputs. Inr outputs" concat "[''ATOM'']"]
  by (simp add: returns_def example_print_def)

text \<open>
  The claim as the specification states it fails: with the supported content type
  \<open>application/json\<close> and an empty request body, \<open>input_fn\<close> raises.
\<close>

theorem input_fn_json_empty_body_raises:
  "input_fn example_print example_scan_once [] ''application/json'' =
     Inl (JSONDecodeError ''Expecting value'')"
  by (simp add: input_fn_def json_loads_blank example_print_def)

section \<open>Endpoint cleanup\<close>

text \<open>
  Claim C7. The cleanup cell never raises: whether \<open>predictor\<close> is bound or not, and
  whatever the delete call does (return, or raise any exception), the cell completes
  normally and reports nothing.
\<close>

theorem delete_endpoint_cell_never_raises:
  "fst (delete_endpoint_cell predictor delete_endpoint service) = Inr ()"
  by (cases predictor)
     (auto simp: delete_endpoint_cell_def try_except_def split: prod.splits sum.splits)

end
